theory Spec2Isabelle
  imports Complex_Main
begin

section \<open>Data model of the cluster tracker\<close>

text \<open>
  The nodelet \<^verbatim>\<open>point_cloud::ClusterTracker\<close> (\<^verbatim>\<open>src/cluster_tracker.cpp\<close>) keeps a
  vector of OpenCV Kalman filters, the assignment vector \<^verbatim>\<open>objID\<close>, a prune counter and a
  first-frame flag. Numbers of type \<^verbatim>\<open>float\<close> and \<^verbatim>\<open>double\<close> are idealised as
  \<^typ>\<open>real\<close>; \<^verbatim>\<open>int\<close> is \<^typ>\<open>int\<close>; \<^verbatim>\<open>size_t\<close> indices and counts are
  \<^typ>\<open>nat\<close> (the prune counter is reset whenever it is found above 20, so it does not
  wrap). An unchecked \<^verbatim>\<open>operator[]\<close> outside the bounds of its vector or array,
  and an iterator moved outside its vector, are undefined behaviour in C++; the model makes
  them the error value \<open>OutOfBounds\<close>.
\<close>

datatype error = OutOfBounds

text \<open>\<^verbatim>\<open>geometry_msgs::Point\<close> and \<^verbatim>\<open>pcl::PointXYZ\<close>: three coordinates.\<close>

datatype Point = Point (pt_x: real) (pt_y: real) (pt_z: real)

text \<open>
  \<^verbatim>\<open>cv::KalmanFilter\<close>: the state vectors are column matrices (lists of entries), the
  other members are matrices (lists of rows).
\<close>

record KalmanFilter =
  statePre :: "real list"
  statePost :: "real list"
  transitionMatrix :: "real list list"
  measurementMatrix :: "real list list"
  processNoiseCov :: "real list list"
  measurementNoiseCov :: "real list list"
  errorCovPre :: "real list list"
  errorCovPost :: "real list list"

text \<open>
  The members of \<^verbatim>\<open>ClusterTracker\<close> that the tracking code reads and writes
  (\<^verbatim>\<open>k_filters_\<close>, \<^verbatim>\<open>objID\<close>, \<^verbatim>\<open>kf_prune_ctr_\<close>, \<^verbatim>\<open>first_frame_\<close>).
\<close>

record ClusterTracker =
  k_filters :: "KalmanFilter list"
  objID :: "int list"
  kf_prune_ctr :: nat
  first_frame :: bool

definition initial_tracker :: ClusterTracker where
  "initial_tracker = \<lparr>k_filters = [], objID = [], kf_prune_ctr = 0, first_frame = True\<rparr>"

definition filter_prune_interval :: nat where
  "filter_prune_interval = 20"

text \<open>\<^verbatim>\<open>std::numeric_limits<float>::max()\<close>, the value \<open>(2 - 2\<^sup>-\<^sup>2\<^sup>3) * 2\<^sup>1\<^sup>2\<^sup>7\<close>.\<close>

definition FLT_MAX :: real where
  "FLT_MAX = 340282346638528859811704183484516925440"

section \<open>Matrices and the OpenCV filter\<close>

definition mat_vec :: "real list list \<Rightarrow> real list \<Rightarrow> real list" where
  "mat_vec A v = map (\<lambda>row. sum_list (map2 (*) row v)) A"

definition mat_mul :: "real list list \<Rightarrow> real list list \<Rightarrow> real list list" where
  "mat_mul A B = map (\<lambda>row. map (\<lambda>col. sum_list (map2 (*) row col)) (transpose B)) A"

definition mat_add :: "real list list \<Rightarrow> real list list \<Rightarrow> real list list" where
  "mat_add A B = map2 (map2 (+)) A B"

text \<open>\<^verbatim>\<open>cv::setIdentity(m, s)\<close> on a matrix with \<open>r\<close> rows and \<open>c\<close> columns.\<close>

definition setIdentity :: "nat \<Rightarrow> nat \<Rightarrow> real \<Rightarrow> real list list" where
  "setIdentity r c s = map (\<lambda>i. map (\<lambda>j. if i = j then s else 0) [0..<c]) [0..<r]"

text \<open>
  \<^verbatim>\<open>cv::KalmanFilter(stateDim, measDim)\<close> as OpenCV's \<^verbatim>\<open>init\<close> leaves it: zero state
  vectors, identity transition and noise covariances, zero measurement matrix and error
  covariances.
\<close>

definition new_KalmanFilter :: "nat \<Rightarrow> nat \<Rightarrow> KalmanFilter" where
  "new_KalmanFilter stateDim measDim =
     \<lparr>statePre = replicate stateDim 0,
      statePost = replicate stateDim 0,
      transitionMatrix = setIdentity stateDim stateDim 1,
      measurementMatrix = setIdentity measDim stateDim 0,
      processNoiseCov = setIdentity stateDim stateDim 1,
      measurementNoiseCov = setIdentity measDim measDim 1,
      errorCovPre = setIdentity stateDim stateDim 0,
      errorCovPost = setIdentity stateDim stateDim 0\<rparr>"

text \<open>
  \<^verbatim>\<open>cv::KalmanFilter::predict()\<close> without control input, as in OpenCV's
  \<^verbatim>\<open>kalman.cpp\<close>: \<^verbatim>\<open>statePre = transitionMatrix * statePost\<close>,
  \<^verbatim>\<open>errorCovPre = transitionMatrix * errorCovPost * transitionMatrix\<^sup>T + processNoiseCov\<close>,
  then both are copied to \<^verbatim>\<open>statePost\<close> and \<^verbatim>\<open>errorCovPost\<close>; the value returned is
  \<^verbatim>\<open>statePre\<close>.
\<close>

definition predict :: "KalmanFilter \<Rightarrow> KalmanFilter" where
  "predict f =
     (let sp = mat_vec (transitionMatrix f) (statePost f);
          ecp = mat_add (mat_mul (mat_mul (transitionMatrix f) (errorCovPost f))
                                 (transpose (transitionMatrix f)))
                        (processNoiseCov f)
      in f\<lparr>statePre := sp, statePost := sp, errorCovPre := ecp, errorCovPost := ecp\<rparr>)"

definition mat_sub :: "real list list \<Rightarrow> real list list \<Rightarrow> real list list" where
  "mat_sub A B = map2 (map2 (-)) A B"

text \<open>The inverse of a 2-by-2 matrix of non-zero determinant.\<close>

definition inv2 :: "real list list \<Rightarrow> real list list" where
  "inv2 M =
     (let a = M ! 0 ! 0; b = M ! 0 ! 1; c = M ! 1 ! 0; d = M ! 1 ! 1; det = a * d - b * c
      in [[d / det, - b / det], [- c / det, a / det]])"

text \<open>
  \<^verbatim>\<open>cv::KalmanFilter::correct(measurement)\<close> for a 2-dimensional measurement, as in
  OpenCV's \<^verbatim>\<open>kalman.cpp\<close>: with \<open>H\<close> the measurement matrix, \<open>P'\<close> the a-priori error
  covariance and \<open>R\<close> the measurement noise, \<^verbatim>\<open>temp2 = H P'\<close>, \<^verbatim>\<open>temp3 = temp2 H\<^sup>T + R\<close>,
  \<^verbatim>\<open>temp4\<close> solves \<^verbatim>\<open>temp3 temp4 = temp2\<close>, the gain is \<^verbatim>\<open>temp4\<^sup>T\<close>,
  \<^verbatim>\<open>statePost = statePre + gain (measurement - H statePre)\<close> and
  \<^verbatim>\<open>errorCovPost = errorCovPre - gain temp2\<close>. OpenCV solves by singular value
  decomposition, which for an invertible \<^verbatim>\<open>temp3\<close> is multiplication by its inverse.
  Only \<^verbatim>\<open>statePost\<close> and \<^verbatim>\<open>errorCovPost\<close> change.
\<close>

definition correct :: "real list \<Rightarrow> KalmanFilter \<Rightarrow> KalmanFilter" where
  "correct measurement f =
     (let temp2 = mat_mul (measurementMatrix f) (errorCovPre f);
          temp3 = mat_add (mat_mul temp2 (transpose (measurementMatrix f)))
                          (measurementNoiseCov f);
          temp4 = mat_mul (inv2 temp3) temp2;
          gain = transpose temp4;
          temp5 = map2 (-) measurement (mat_vec (measurementMatrix f) (statePre f))
      in f\<lparr>statePost := map2 (+) (statePre f) (mat_vec gain temp5),
            errorCovPost := mat_sub (errorCovPre f) (mat_mul gain temp2)\<rparr>)"

section \<open>Creating filters\<close>

text \<open>
  The body of the loop of \<^verbatim>\<open>_init_KFilters\<close>: a fresh 4-state, 2-measurement filter
  with the transition matrix
  \<^verbatim>\<open>dx, 0, 1, 0,  0, dy, 0, 1,  0, 0, dvx, 0,  0, 0, 0, dvy\<close>
  where \<^verbatim>\<open>dx = dy = 1.0f\<close> and \<^verbatim>\<open>dvx = dvy = 0.01f\<close>, identity measurement matrix,
  process noise \<^verbatim>\<open>sigmaP = 0.01\<close> and measurement noise \<^verbatim>\<open>sigmaQ = 0.1\<close>.
\<close>

definition dx :: real where "dx = 1"
definition dy :: real where "dy = dx"
definition dvx :: real where "dvx = 1 / 100"
definition dvy :: real where "dvy = dvx"

definition init_filter :: KalmanFilter where
  "init_filter =
     (new_KalmanFilter 4 2)
       \<lparr>transitionMatrix := [[dx, 0, 1, 0], [0, dy, 0, 1], [0, 0, dvx, 0], [0, 0, 0, dvy]],
        measurementMatrix := setIdentity 2 4 1,
        processNoiseCov := setIdentity 4 4 (1 / 100),
        measurementNoiseCov := setIdentity 2 2 (1 / 10)\<rparr>"

text \<open>\<^verbatim>\<open>_init_KFilters(cnt)\<close> pushes \<open>cnt\<close> such filters to the back of \<^verbatim>\<open>k_filters_\<close>.\<close>

definition init_KFilters :: "nat \<Rightarrow> KalmanFilter list \<Rightarrow> KalmanFilter list" where
  "init_KFilters cnt fs = fs @ replicate cnt init_filter"

text \<open>
  The four assignments \<^verbatim>\<open>statePre.at<float>(0) = c.x\<close>, \<^verbatim>\<open>(1) = c.y\<close>,
  \<^verbatim>\<open>(2) = 0\<close>, \<^verbatim>\<open>(3) = 0\<close> that seed a filter with an observation.
\<close>

definition seed_statePre :: "Point \<Rightarrow> KalmanFilter \<Rightarrow> KalmanFilter" where
  "seed_statePre c f = f\<lparr>statePre := (statePre f)[0 := pt_x c, 1 := pt_y c, 2 := 0, 3 := 0]\<rparr>"

section \<open>The associator\<close>

definition euclidian_dst :: "Point \<Rightarrow> Point \<Rightarrow> real" where
  "euclidian_dst p1 p2 =
     sqrt ((pt_x p1 - pt_x p2) * (pt_x p1 - pt_x p2)
         + (pt_y p1 - pt_y p2) * (pt_y p1 - pt_y p2)
         + (pt_z p1 - pt_z p2) * (pt_z p1 - pt_z p2))"

text \<open>
  \<^verbatim>\<open>findMinIDX\<close>: the inner loop over the columns \<open>c\<close> of row \<open>pp\<close>. The accumulator is
  \<^verbatim>\<open>(minEl, minIndex)\<close>. The read \<^verbatim>\<open>distMat[pp][c]\<close> is unchecked.
\<close>

fun findMin_cols ::
  "real list \<Rightarrow> nat \<Rightarrow> nat list \<Rightarrow> real \<times> int \<times> int \<Rightarrow> error + (real \<times> int \<times> int)" where
  "findMin_cols row pp [] acc = Inr acc"
| "findMin_cols row pp (c # cs) acc =
     (if c < length row then
        (if row ! c < fst acc then findMin_cols row pp cs (row ! c, (int pp, int c))
         else findMin_cols row pp cs acc)
      else Inl OutOfBounds)"

text \<open>
  The outer loop over the rows; the column bound of every row is
  \<^verbatim>\<open>distMat.at(0).size()\<close>, passed as \<open>ncols\<close>.
\<close>

fun findMin_rows ::
  "real list list \<Rightarrow> nat \<Rightarrow> nat list \<Rightarrow> real \<times> int \<times> int \<Rightarrow> error + (real \<times> int \<times> int)" where
  "findMin_rows distMat ncols [] acc = Inr acc"
| "findMin_rows distMat ncols (pp # pps) acc =
     (case findMin_cols (distMat ! pp) pp [0..<ncols] acc of
        Inl e \<Rightarrow> Inl e
      | Inr acc' \<Rightarrow> findMin_rows distMat ncols pps acc')"

definition findMinIDX :: "real list list \<Rightarrow> error + (int \<times> int)" where
  "findMinIDX distMat =
     (if distMat = [] then Inr (- 1, - 1)
      else (case findMin_rows distMat (length (distMat ! 0)) [0..<length distMat]
                   (FLT_MAX, (- 1, - 1)) of
              Inl e \<Rightarrow> Inl e
            | Inr acc \<Rightarrow> Inr (snd acc)))"

text \<open>
  The loop \<^verbatim>\<open>for r: distMatrix[r][minIdx.second] = max\<close> of \<^verbatim>\<open>match_objID\<close>; the
  index is an \<^verbatim>\<open>int\<close> converted to \<^verbatim>\<open>size_t\<close>, so a negative one is out of range.
\<close>

fun erase_column :: "int \<Rightarrow> real list list \<Rightarrow> error + real list list" where
  "erase_column c [] = Inr []"
| "erase_column c (row # rows) =
     (if 0 \<le> c \<and> nat c < length row then
        (case erase_column c rows of
           Inl e \<Rightarrow> Inl e
         | Inr rows' \<Rightarrow> Inr (row[nat c := FLT_MAX] # rows'))
      else Inl OutOfBounds)"

text \<open>
  The guarded part of the loop body: \<^verbatim>\<open>vec[minIdx.first] = minIdx.second\<close> and
  \<^verbatim>\<open>used[minIdx.second] = true\<close>.
\<close>

definition save_match ::
  "int \<Rightarrow> int \<Rightarrow> int list \<Rightarrow> bool list \<Rightarrow> error + (int list \<times> bool list)" where
  "save_match first second vec used =
     (if 0 \<le> first \<and> nat first < length vec \<and> 0 \<le> second \<and> nat second < length used
      then Inr (vec[nat first := second], used[nat second := True])
      else Inl OutOfBounds)"

text \<open>
  The matching loop of \<^verbatim>\<open>match_objID\<close>, run \<^verbatim>\<open>k_filters_.size()\<close> times. Only the
  saving of the match is guarded by \<^verbatim>\<open>minIdx.first != -1\<close>; the row assignment
  \<^verbatim>\<open>distMatrix[minIdx.first] = std::vector<float>(6, max)\<close> and the column loop follow
  unconditionally.
\<close>

fun match_loop ::
  "nat \<Rightarrow> int list \<Rightarrow> bool list \<Rightarrow> real list list \<Rightarrow> error + (int list \<times> bool list)" where
  "match_loop 0 vec used distMatrix = Inr (vec, used)"
| "match_loop (Suc n) vec used distMatrix =
     (case findMinIDX distMatrix of
        Inl e \<Rightarrow> Inl e
      | Inr minIdx \<Rightarrow>
          (case (if fst minIdx \<noteq> - 1 then save_match (fst minIdx) (snd minIdx) vec used
                 else Inr (vec, used)) of
             Inl e \<Rightarrow> Inl e
           | Inr (vec', used') \<Rightarrow>
               (if 0 \<le> fst minIdx \<and> nat (fst minIdx) < length distMatrix then
                  (case erase_column (snd minIdx)
                          (distMatrix[nat (fst minIdx) := replicate 6 FLT_MAX]) of
                     Inl e \<Rightarrow> Inl e
                   | Inr distMatrix' \<Rightarrow> match_loop n vec' used' distMatrix')
                else Inl OutOfBounds)))"

definition build_distMatrix :: "Point list \<Rightarrow> Point list \<Rightarrow> real list list" where
  "build_distMatrix pred cCentres = map (\<lambda>pp. map (\<lambda>centre. euclidian_dst pp centre) cCentres) pred"

text \<open>
  \<^verbatim>\<open>match_objID(pred, cCentres, used)\<close>; \<open>nfilters\<close> is \<^verbatim>\<open>k_filters_.size()\<close>, which
  the member function reads from the object.
\<close>

definition match_objID ::
  "nat \<Rightarrow> Point list \<Rightarrow> Point list \<Rightarrow> bool list \<Rightarrow> error + (int list \<times> bool list)" where
  "match_objID nfilters pred cCentres used =
     match_loop nfilters (replicate (length pred) (- 1)) used (build_distMatrix pred cCentres)"

section \<open>The tracking cycle\<close>

text \<open>
  The conversion loop of \<^verbatim>\<open>KFTrack\<close> reads the data of the multi-array three values
  at a time (\<^verbatim>\<open>it += 3\<close>); a length that is not a multiple of three makes the iterator
  pass the end.
\<close>

fun points_of_data :: "real list \<Rightarrow> error + Point list" where
  "points_of_data [] = Inr []"
| "points_of_data (a # b # c # rest) =
     (case points_of_data rest of Inl e \<Rightarrow> Inl e | Inr pts \<Rightarrow> Inr (Point a b c # pts))"
| "points_of_data _ = Inl OutOfBounds"

text \<open>
  The point that \<^verbatim>\<open>KFTrack\<close> builds from the matrix \<open>p\<close> returned by \<^verbatim>\<open>predict()\<close>:
  \<^verbatim>\<open>pt.x = p.at<float>(0); pt.y = p.at<float>(1); pt.z = p.at<float>(2)\<close>.
\<close>

definition predicted_point :: "KalmanFilter \<Rightarrow> Point" where
  "predicted_point f = Point (statePre f ! 0) (statePre f ! 1) (statePre f ! 2)"

text \<open>
  The seeding loop of the branch \<^verbatim>\<open>objID.size() < cCentres.size()\<close>, over the pairs
  \<^verbatim>\<open>(cCentres[i], cluster_used[i])\<close> from index \<open>i\<close> on. The slot written is
  \<^verbatim>\<open>k_filters_[i + diff - skipped]\<close>, unchecked.
\<close>

fun seed_loop ::
  "(Point \<times> bool) list \<Rightarrow> nat \<Rightarrow> nat \<Rightarrow> nat \<Rightarrow> KalmanFilter list \<Rightarrow> error + KalmanFilter list" where
  "seed_loop [] diff i skipped fs = Inr fs"
| "seed_loop ((c, u) # rest) diff i skipped fs =
     (if \<not> u then
        (if i + diff - skipped < length fs then
           seed_loop rest diff (i + 1) skipped
             (fs[i + diff - skipped := seed_statePre c (fs ! (i + diff - skipped))])
         else Inl OutOfBounds)
      else seed_loop rest diff (i + 1) (skipped + 1) fs)"

text \<open>\<^verbatim>\<open>v.erase(v.begin() + n)\<close>.\<close>

definition erase_at :: "nat \<Rightarrow> 'a list \<Rightarrow> 'a list" where
  "erase_at n xs = take n xs @ drop (Suc n) xs"

text \<open>
  The pruning loop, over the entries of \<^verbatim>\<open>objID\<close> from index \<open>i\<close> on; the iterator
  \<^verbatim>\<open>it\<close> stands at position \<open>i - deleted\<close> of the current \<^verbatim>\<open>objID\<close>. For an entry
  \<^verbatim>\<open>-1\<close> the filter \<^verbatim>\<open>k_filters_[i - deleted]\<close> (unchecked) is deleted, then
  \<^verbatim>\<open>objID.erase(it--)\<close> erases the entry and the filter is erased. The decrement in
  \<^verbatim>\<open>it--\<close> moves the iterator before \<^verbatim>\<open>objID.begin()\<close> when the entry is the first
  of the current \<^verbatim>\<open>objID\<close>: that is undefined too, and an error here. Otherwise the
  loop's \<^verbatim>\<open>it++\<close> puts the iterator on the entry that followed the erased one. The result
  is the remaining \<^verbatim>\<open>objID\<close> and \<^verbatim>\<open>k_filters_\<close>.
\<close>

fun prune_loop ::
  "int list \<Rightarrow> nat \<Rightarrow> nat \<Rightarrow> KalmanFilter list \<Rightarrow> error + (int list \<times> KalmanFilter list)" where
  "prune_loop [] i deleted fs = Inr ([], fs)"
| "prune_loop (a # rest) i deleted fs =
     (if a = - 1 then
        (if i - deleted < length fs then
           (if i - deleted = 0 then Inl OutOfBounds
            else prune_loop rest (i + 1) (deleted + 1) (erase_at (i - deleted) fs))
         else Inl OutOfBounds)
      else (case prune_loop rest (i + 1) deleted fs of
              Inl e \<Rightarrow> Inl e
            | Inr (ids, fs') \<Rightarrow> Inr (a # ids, fs')))"

text \<open>
  The two structural branches of \<^verbatim>\<open>KFTrack\<close> after the matching. In the second one
  \<^verbatim>\<open>kf_prune_ctr_++ > filter_prune_interval\<close> is evaluated only when
  \<^verbatim>\<open>cCentres.size() < objID.size()\<close>; it compares the value before the increment, and
  the pruning branch then sets the counter to zero.
\<close>

definition reconcile :: "Point list \<Rightarrow> bool list \<Rightarrow> ClusterTracker \<Rightarrow> error + ClusterTracker" where
  "reconcile cCentres cluster_used s =
     (if length (objID s) < length cCentres then
        (let diff = length cCentres - length (objID s) in
         case seed_loop (zip cCentres cluster_used) diff 0 0 (init_KFilters diff (k_filters s)) of
           Inl e \<Rightarrow> Inl e
         | Inr fs \<Rightarrow> Inr (s\<lparr>k_filters := fs\<rparr>))
      else if length cCentres < length (objID s) then
        (if kf_prune_ctr s > filter_prune_interval then
           (case prune_loop (objID s) 0 0 (k_filters s) of
              Inl e \<Rightarrow> Inl e
            | Inr (ids, fs) \<Rightarrow> Inr (s\<lparr>k_filters := fs, objID := ids, kf_prune_ctr := 0\<rparr>))
         else Inr (s\<lparr>kf_prune_ctr := kf_prune_ctr s + 1\<rparr>))
      else Inr s)"

text \<open>
  The correction loop at the end of \<^verbatim>\<open>KFTrack\<close>, over the entries of \<^verbatim>\<open>objCopy\<close>
  from slot \<open>i\<close> on. The measurement is read from \<^verbatim>\<open>cCentres[objCopy[i]]\<close>, unchecked and
  before any test; \<^verbatim>\<open>correct\<close> is called unless \<^verbatim>\<open>meas[0] == 0.0f || meas[1] == 0.0f\<close>.
\<close>

fun correct_loop ::
  "Point list \<Rightarrow> int list \<Rightarrow> nat \<Rightarrow> KalmanFilter list \<Rightarrow> error + KalmanFilter list" where
  "correct_loop cCentres [] i fs = Inr fs"
| "correct_loop cCentres (a # rest) i fs =
     (if 0 \<le> a \<and> nat a < length cCentres then
        (let meas = [pt_x (cCentres ! nat a), pt_y (cCentres ! nat a)] in
         if \<not> (meas ! 0 = 0 \<or> meas ! 1 = 0) then
           (if i < length fs then
              correct_loop cCentres rest (i + 1) (fs[i := correct meas (fs ! i)])
            else Inl OutOfBounds)
         else correct_loop cCentres rest (i + 1) fs)
      else Inl OutOfBounds)"

text \<open>
  \<^verbatim>\<open>KFTrack(ccs)\<close>. The array \<^verbatim>\<open>cluster_used\<close> has \<^verbatim>\<open>cCentres.size()\<close> entries; the
  loop \<^verbatim>\<open>for (auto b : cluster_used) b = false;\<close> assigns to a copy of each entry, so the
  array keeps whatever the stack held: the parameter \<open>stack\<close> gives that content.
  Publishing the markers and the assignment has no effect on the tracker's state.
\<close>

definition KFTrack :: "(nat \<Rightarrow> bool) \<Rightarrow> real list \<Rightarrow> ClusterTracker \<Rightarrow> error + ClusterTracker" where
  "KFTrack stack ccs s =
     (let fs = map predict (k_filters s);
          predicted_points = map predicted_point fs
      in case points_of_data ccs of
           Inl e \<Rightarrow> Inl e
         | Inr cCentres \<Rightarrow>
             (let cluster_used = map stack [0..<length cCentres]
              in case match_objID (length fs) predicted_points cCentres cluster_used of
                   Inl e \<Rightarrow> Inl e
                 | Inr (ids, used) \<Rightarrow>
                     (case reconcile cCentres used (s\<lparr>k_filters := fs, objID := ids\<rparr>) of
                        Inl e \<Rightarrow> Inl e
                      | Inr s' \<Rightarrow>
                          (case correct_loop cCentres (objID s') 0 (k_filters s') of
                             Inl e \<Rightarrow> Inl e
                           | Inr fs' \<Rightarrow> Inr (s'\<lparr>k_filters := fs'\<rparr>)))))"

section \<open>The frame callback\<close>

text \<open>
  \<^verbatim>\<open>cloudCallback\<close> after the clustering (PCL's, not modelled): every cluster is the list
  of its points, and its centre has the mean \<open>x\<close> and \<open>y\<close> and \<^verbatim>\<open>centre.z = 0.0\<close>.
  The clustering yields no empty cluster, so the division is by a positive count.
\<close>

definition centre_of :: "Point list \<Rightarrow> Point" where
  "centre_of cluster =
     Point (sum_list (map pt_x cluster) / real (length cluster))
           (sum_list (map pt_y cluster) / real (length cluster))
           0"

text \<open>
  The first-frame loop: \<^verbatim>\<open>k_filters_[i]\<close> (unchecked) is seeded with
  \<^verbatim>\<open>cluster_centres.at(i)\<close>, for the centres from index \<open>i\<close> on.
\<close>

fun first_frame_loop :: "Point list \<Rightarrow> nat \<Rightarrow> KalmanFilter list \<Rightarrow> error + KalmanFilter list" where
  "first_frame_loop [] i fs = Inr fs"
| "first_frame_loop (c # rest) i fs =
     (if i < length fs then first_frame_loop rest (i + 1) (fs[i := seed_statePre c (fs ! i)])
      else Inl OutOfBounds)"

definition multiarray_of :: "Point list \<Rightarrow> real list" where
  "multiarray_of cluster_centres = concat (map (\<lambda>c. [pt_x c, pt_y c, pt_z c]) cluster_centres)"

definition cloudCallback ::
  "(nat \<Rightarrow> bool) \<Rightarrow> Point list list \<Rightarrow> ClusterTracker \<Rightarrow> error + ClusterTracker" where
  "cloudCallback stack cluster_vec s =
     (let cluster_centres = map centre_of cluster_vec in
      if first_frame s then
        (case first_frame_loop cluster_centres 0
                (init_KFilters (length cluster_vec) (k_filters s)) of
           Inl e \<Rightarrow> Inl e
         | Inr fs \<Rightarrow> Inr (s\<lparr>k_filters := fs, first_frame := False\<rparr>))
      else KFTrack stack (multiarray_of cluster_centres) s)"

section \<open>The invariant of the matching loop\<close>

text \<open>
  What holds of the assignment \<open>vec\<close> and the distance matrix \<open>M\<close> between two rounds of
  the matching loop, for \<open>ncols\<close> observations: a row whose track has an observation holds
  no entry below \<^verbatim>\<open>max\<close>; a column whose observation is assigned holds no entry below
  \<^verbatim>\<open>max\<close> in any row; no observation is assigned twice; a row has \<open>ncols\<close> entries
  unless it was erased; assigned observations are indices below \<open>ncols\<close>.
\<close>

definition match_inv :: "nat \<Rightarrow> int list \<Rightarrow> real list list \<Rightarrow> bool" where
  "match_inv ncols vec M \<longleftrightarrow>
     length vec = length M
   \<and> (\<forall>i<length M. vec ! i \<noteq> - 1 \<longrightarrow> (\<forall>v\<in>set (M ! i). \<not> v < FLT_MAX))
   \<and> (\<forall>i<length M. \<forall>r<length M. \<forall>k<length (M ! r). vec ! i = int k \<longrightarrow> \<not> M ! r ! k < FLT_MAX)
   \<and> (\<forall>i<length M. \<forall>j<length M. vec ! i \<noteq> - 1 \<and> vec ! i = vec ! j \<longrightarrow> i = j)
   \<and> (\<forall>r<length M. length (M ! r) = ncols \<or> (\<forall>v\<in>set (M ! r). \<not> v < FLT_MAX))
   \<and> (\<forall>i<length M. vec ! i \<noteq> - 1 \<longrightarrow> 0 \<le> vec ! i \<and> nat (vec ! i) < ncols)"

section \<open>Evaluation at concrete inputs\<close>

lemma replicate_6: "replicate 6 v = [v, v, v, v, v, v]"
  by (simp add: numeral_eq_Suc)

lemma sqrt_25: "sqrt 25 = 5"
proof -
  have "sqrt ((5::real)\<^sup>2) = \<bar>5\<bar>" by (rule real_sqrt_abs)
  then show ?thesis by simp
qed

lemmas match_eval =
  match_objID_def build_distMatrix_def findMinIDX_def Let_def euclidian_dst_def
  save_match_def replicate_6 upt_conv_Cons FLT_MAX_def

section \<open>The motion filter\<close>

text \<open>
  C7 (as amended). For a filter with the transition matrix that \<^verbatim>\<open>_init_KFilters\<close> gives
  every filter, and a-posteriori state \<open>(x, y, v\<^sub>x, v\<^sub>y)\<close>, the predict step yields the
  position \<open>(x + v\<^sub>x, y + v\<^sub>y)\<close>; each velocity component is multiplied by
  \<^verbatim>\<open>dvx = dvy = 0.01\<close>, not carried over unchanged. The step leaves the transition
  matrix as it is.
\<close>

theorem predict_transition:
  "transitionMatrix f = transitionMatrix init_filter \<Longrightarrow> statePost f = [px, py, vx, vy] \<Longrightarrow>
   statePre (predict f) = [px + vx, py + vy, vx / 100, vy / 100]
   \<and> statePost (predict f) = statePre (predict f)
   \<and> transitionMatrix (predict f) = transitionMatrix f"
  by (simp add: predict_def init_filter_def mat_vec_def dx_def dy_def dvx_def dvy_def Let_def)

theorem predict_transition_witness:
  "statePre (predict (init_filter\<lparr>statePost := [1, 2, 3, 4]\<rparr>)) = [4, 6, 3 / 100, 4 / 100]"
  using predict_transition [of "init_filter\<lparr>statePost := [1, 2, 3, 4]\<rparr>" 1 2 3 4]
  by simp

text \<open>Seeding and correcting a filter leave its transition matrix as it is, too.\<close>

lemma transitionMatrix_fixed:
  "transitionMatrix (seed_statePre c f) = transitionMatrix f"
  "transitionMatrix (correct m f) = transitionMatrix f"
  by (simp_all add: seed_statePre_def correct_def Let_def)

text \<open>
  C7 fails as stated: a filter with velocity \<open>v\<^sub>x = 1\<close> has \<open>v\<^sub>x = 1/100\<close> after one
  predict step.
\<close>

theorem predict_velocity_counterexample:
  "statePost (init_filter\<lparr>statePost := [0, 0, 1, 0]\<rparr>) ! 2 = 1
   \<and> statePre (predict (init_filter\<lparr>statePost := [0, 0, 1, 0]\<rparr>)) ! 2 = 1 / 100"
  by (simp add: predict_def init_filter_def mat_vec_def dx_def dy_def dvx_def dvy_def Let_def)

section \<open>The first frame\<close>

lemma first_frame_loop_fresh:
  "first_frame_loop cs (length done) (done @ replicate (length cs) init_filter)
     = Inr (done @ map (\<lambda>c. seed_statePre c init_filter) cs)"
proof (induction cs arbitrary: "done")
  case Nil
  then show ?case by simp
next
  case (Cons c cs)
  have "first_frame_loop cs (length (done @ [seed_statePre c init_filter]))
          ((done @ [seed_statePre c init_filter]) @ replicate (length cs) init_filter)
        = Inr ((done @ [seed_statePre c init_filter]) @ map (\<lambda>c. seed_statePre c init_filter) cs)"
    by (rule Cons.IH)
  then show ?case by (simp add: nth_append list_update_append)
qed

lemma statePre_seed_init: "statePre (seed_statePre c init_filter) = [pt_x c, pt_y c, 0, 0]"
  by (simp add: seed_statePre_def init_filter_def new_KalmanFilter_def numeral_eq_Suc)

text \<open>
  On the first frame (the tracker as constructed: no filters, \<^verbatim>\<open>first_frame_\<close> set)
  \<^verbatim>\<open>cloudCallback\<close> does not call \<^verbatim>\<open>KFTrack\<close>: the assignment and the prune counter stay
  as they were, the flag is cleared, and there is exactly one filter per cluster, in the order
  of the clusters, each a fresh filter whose \<^verbatim>\<open>statePre\<close> is \<open>(x, y, 0, 0)\<close> for the
  centre \<open>(x, y)\<close> of its cluster.
\<close>

lemma first_frame_filters:
  "cloudCallback stack cluster_vec initial_tracker =
     Inr \<lparr>k_filters = map (\<lambda>cl. seed_statePre (centre_of cl) init_filter) cluster_vec,
          objID = [], kf_prune_ctr = 0, first_frame = False\<rparr>
   \<and> map statePre (map (\<lambda>cl. seed_statePre (centre_of cl) init_filter) cluster_vec)
       = map (\<lambda>cl. [pt_x (centre_of cl), pt_y (centre_of cl), 0, 0]) cluster_vec"
  using first_frame_loop_fresh [of "map centre_of cluster_vec" "[]"]
  by (simp add: cloudCallback_def initial_tracker_def init_KFilters_def statePre_seed_init comp_def)

text \<open>
  OpenCV's \<^verbatim>\<open>predict\<close> computes the a-priori state from \<^verbatim>\<open>statePost\<close>: what the seeding
  wrote to \<^verbatim>\<open>statePre\<close> does not reach the next prediction.
\<close>

lemma predict_seed_statePre: "statePre (predict (seed_statePre c f)) = statePre (predict f)"
  by (simp add: predict_def seed_statePre_def Let_def)

text \<open>
  The seeding leaves \<^verbatim>\<open>statePost\<close> of a fresh filter at zero, so every filter of the first
  frame is predicted at the origin on the next frame, wherever its cluster was.
\<close>

lemma statePost_seed_init: "statePost (seed_statePre c init_filter) = [0, 0, 0, 0]"
  by (simp add: seed_statePre_def init_filter_def new_KalmanFilter_def numeral_eq_Suc)

lemma predicted_point_seed_init:
  "predicted_point (predict (seed_statePre c init_filter)) = Point 0 0 0"
  by (simp add: predicted_point_def predict_def seed_statePre_def init_filter_def
        new_KalmanFilter_def mat_vec_def Let_def numeral_eq_Suc)

lemma first_frame_predictions:
  "map predicted_point
     (map predict (map (\<lambda>cl. seed_statePre (centre_of cl) init_filter) cluster_vec))
   = map (\<lambda>cl. Point 0 0 0) cluster_vec"
  by (simp add: predicted_point_seed_init)

text \<open>
  C8 fails on the code. The first frame with the centres \<open>(1, 0, 0)\<close> and \<open>(5, 5, 0)\<close>
  skips the tracking cycle and gives two tracks, but the observations are written to
  \<^verbatim>\<open>statePre\<close> only: the state that \<^verbatim>\<open>predict\<close> advances, \<^verbatim>\<open>statePost\<close>, is
  \<open>(0, 0, 0, 0)\<close> in both, and the first prediction of both tracks is the origin, not
  \<open>(1, 0)\<close> and \<open>(5, 5)\<close>.
\<close>

theorem first_frame_seed_lost:
  "cloudCallback (\<lambda>i. False) [[Point 1 0 0], [Point 5 5 0]] initial_tracker =
     Inr \<lparr>k_filters = [init_filter\<lparr>statePre := [1, 0, 0, 0]\<rparr>,
                       init_filter\<lparr>statePre := [5, 5, 0, 0]\<rparr>],
          objID = [], kf_prune_ctr = 0, first_frame = False\<rparr>
   \<and> map statePost [init_filter\<lparr>statePre := [1, 0, 0, 0]\<rparr>,
                     init_filter\<lparr>statePre := [5, 5, 0, 0]\<rparr>]
       = [[0, 0, 0, 0], [0, 0, 0, 0]]
   \<and> map predicted_point
        (map predict [init_filter\<lparr>statePre := [1, 0, 0, 0]\<rparr>,
                      init_filter\<lparr>statePre := [5, 5, 0, 0]\<rparr>])
       = [Point 0 0 0, Point 0 0 0]"
proof -
  have run: "cloudCallback (\<lambda>i. False) [[Point 1 0 0], [Point 5 5 0]] initial_tracker =
     Inr \<lparr>k_filters = [init_filter\<lparr>statePre := [1, 0, 0, 0]\<rparr>,
                       init_filter\<lparr>statePre := [5, 5, 0, 0]\<rparr>],
          objID = [], kf_prune_ctr = 0, first_frame = False\<rparr>"
    using first_frame_filters [of "\<lambda>i. False" "[[Point 1 0 0], [Point 5 5 0]]"]
    by (simp add: centre_of_def seed_statePre_def init_filter_def new_KalmanFilter_def
          numeral_eq_Suc)
  have post: "statePost (init_filter\<lparr>statePre := v\<rparr>) = [0, 0, 0, 0]" for v
    by (simp add: init_filter_def new_KalmanFilter_def numeral_eq_Suc)
  have pred: "predicted_point (predict (init_filter\<lparr>statePre := v\<rparr>)) = Point 0 0 0" for v
    by (simp add: predicted_point_def predict_def init_filter_def new_KalmanFilter_def
          mat_vec_def Let_def numeral_eq_Suc)
  from run post pred show ?thesis by simp
qed

section \<open>The association distance\<close>

text \<open>The multi-array that \<^verbatim>\<open>cloudCallback\<close> builds is read back by \<^verbatim>\<open>KFTrack\<close> as the same centres.\<close>

lemma points_of_data_multiarray: "points_of_data (multiarray_of cs) = Inr cs"
  by (induction cs) (simp_all add: multiarray_of_def)

text \<open>
  After the first frame \<^verbatim>\<open>cloudCallback\<close> is the tracking cycle on the predicted points of
  the filters and the centres of the clusters.
\<close>

lemma cloudCallback_tracking:
  "\<not> first_frame s \<Longrightarrow>
   cloudCallback stack cluster_vec s =
     (case match_objID (length (k_filters s)) (map predicted_point (map predict (k_filters s)))
             (map centre_of cluster_vec) (map stack [0..<length cluster_vec]) of
        Inl e \<Rightarrow> Inl e
      | Inr (ids, used) \<Rightarrow>
          (case reconcile (map centre_of cluster_vec) used
                  (s\<lparr>k_filters := map predict (k_filters s), objID := ids\<rparr>) of
             Inl e \<Rightarrow> Inl e
           | Inr s' \<Rightarrow>
               (case correct_loop (map centre_of cluster_vec) (objID s') 0 (k_filters s') of
                  Inl e \<Rightarrow> Inl e
                | Inr fs' \<Rightarrow> Inr (s'\<lparr>k_filters := fs'\<rparr>))))"
  by (simp add: cloudCallback_def KFTrack_def points_of_data_multiarray Let_def)



section \<open>The associator on an exhausted matrix\<close>

text \<open>
  C3 fails on the code. With one track and no observation \<^verbatim>\<open>findMinIDX\<close> returns
  \<open>(-1, -1)\<close> and the loop goes on to \<^verbatim>\<open>distMatrix[-1]\<close>; with two tracks and one
  observation the second round scans six columns of a one-column row when row 0 was replaced
  in the first round, and finds the matrix exhausted otherwise.
\<close>

theorem match_objID_exhausted:
  "match_objID 1 [Point 0 0 0] [] [] = Inl OutOfBounds
   \<and> match_objID 2 [Point 0 0 0, Point 5 0 0] [Point 1 0 0] [False] = Inl OutOfBounds
   \<and> match_objID 2 [Point 5 0 0, Point 0 0 0] [Point 1 0 0] [False] = Inl OutOfBounds
   \<and> KFTrack (\<lambda>i. False) []
        \<lparr>k_filters = [init_filter], objID = [], kf_prune_ctr = 0, first_frame = False\<rparr>
       = Inl OutOfBounds"
  by (simp add: match_eval KFTrack_def numeral_2_eq_2)

section \<open>One-to-one assignment\<close>

lemma findMin_cols_inv:
  "findMin_cols (M ! pp) pp cs acc = Inr acc' \<Longrightarrow> pp < length M \<Longrightarrow>
   snd acc = (- 1, - 1) \<or>
     (\<exists>p c. snd acc = (int p, int c) \<and> p < length M \<and> c < length (M ! p) \<and> M ! p ! c < FLT_MAX) \<Longrightarrow>
   fst acc \<le> FLT_MAX \<Longrightarrow>
   fst acc' \<le> FLT_MAX \<and>
   (snd acc' = (- 1, - 1) \<or>
     (\<exists>p c. snd acc' = (int p, int c) \<and> p < length M \<and> c < length (M ! p) \<and> M ! p ! c < FLT_MAX))"
proof (induction cs arbitrary: acc)
  case Nil
  then show ?case by simp
next
  case (Cons c cs)
  from Cons.prems(1) have c: "c < length (M ! pp)"
    by (simp split: if_splits)
  show ?case
  proof (cases "M ! pp ! c < fst acc")
    case True
    with Cons.prems(1) c
    have run: "findMin_cols (M ! pp) pp cs (M ! pp ! c, (int pp, int c)) = Inr acc'"
      by simp
    have less: "M ! pp ! c < FLT_MAX"
      using True Cons.prems(4) by simp
    show ?thesis
    proof (rule Cons.IH [OF run Cons.prems(2)])
      show "snd (M ! pp ! c, int pp, int c) = (- 1, - 1) \<or>
        (\<exists>p ca. snd (M ! pp ! c, int pp, int c) = (int p, int ca) \<and> p < length M \<and>
           ca < length (M ! p) \<and> M ! p ! ca < FLT_MAX)"
        using c less Cons.prems(2) by auto
      show "fst (M ! pp ! c, int pp, int c) \<le> FLT_MAX"
        using less by simp
    qed
  next
    case False
    with Cons.prems(1) c have run: "findMin_cols (M ! pp) pp cs acc = Inr acc'"
      by simp
    show ?thesis
      by (rule Cons.IH [OF run Cons.prems(2) Cons.prems(3) Cons.prems(4)])
  qed
qed

lemma findMin_rows_inv:
  "findMin_rows M ncols pps acc = Inr acc' \<Longrightarrow> \<forall>pp\<in>set pps. pp < length M \<Longrightarrow>
   snd acc = (- 1, - 1) \<or>
     (\<exists>p c. snd acc = (int p, int c) \<and> p < length M \<and> c < length (M ! p) \<and> M ! p ! c < FLT_MAX) \<Longrightarrow>
   fst acc \<le> FLT_MAX \<Longrightarrow>
   fst acc' \<le> FLT_MAX \<and>
   (snd acc' = (- 1, - 1) \<or>
     (\<exists>p c. snd acc' = (int p, int c) \<and> p < length M \<and> c < length (M ! p) \<and> M ! p ! c < FLT_MAX))"
proof (induction pps arbitrary: acc)
  case Nil
  then show ?case by simp
next
  case (Cons pp pps)
  from Cons.prems(1) obtain acc1 where
    cols: "findMin_cols (M ! pp) pp [0..<ncols] acc = Inr acc1" and
    rows: "findMin_rows M ncols pps acc1 = Inr acc'"
    by (auto split: sum.splits)
  from Cons.prems(2) have pp: "pp < length M" and pps: "\<forall>pp\<in>set pps. pp < length M"
    by auto
  from findMin_cols_inv [OF cols pp Cons.prems(3) Cons.prems(4)]
  have a1: "fst acc1 \<le> FLT_MAX" and
    a2: "snd acc1 = (- 1, - 1) \<or>
     (\<exists>p c. snd acc1 = (int p, int c) \<and> p < length M \<and> c < length (M ! p) \<and> M ! p ! c < FLT_MAX)"
    by blast+
  show ?case
    by (rule Cons.IH [OF rows pps a2 a1])
qed

lemma findMinIDX_selection:
  assumes "findMinIDX M = Inr idx"
  shows "idx = (- 1, - 1) \<or>
     (\<exists>p c. idx = (int p, int c) \<and> p < length M \<and> c < length (M ! p) \<and> M ! p ! c < FLT_MAX)"
proof (cases "M = []")
  case True
  with assms show ?thesis by (simp add: findMinIDX_def)
next
  case False
  with assms obtain acc' where
    rows: "findMin_rows M (length (M ! 0)) [0..<length M] (FLT_MAX, (- 1, - 1)) = Inr acc'"
    and idx: "idx = snd acc'"
    by (auto simp: findMinIDX_def split: sum.splits)
  have "fst acc' \<le> FLT_MAX \<and>
   (snd acc' = (- 1, - 1) \<or>
     (\<exists>p c. snd acc' = (int p, int c) \<and> p < length M \<and> c < length (M ! p) \<and> M ! p ! c < FLT_MAX))"
    by (rule findMin_rows_inv [OF rows]) simp_all
  with idx show ?thesis by simp
qed

lemma erase_column_map:
  "erase_column c M = Inr M' \<Longrightarrow> M' = map (\<lambda>row. row[nat c := FLT_MAX]) M"
  by (induction M arbitrary: M') (auto split: if_splits sum.splits)


lemma match_loop_step:
  assumes "match_loop (Suc n) vec used M = Inr res"
  shows "\<exists>p c used1. p < length M \<and> c < length (M ! p) \<and> M ! p ! c < FLT_MAX \<and>
           match_loop n (vec[p := int c]) used1
             (map (\<lambda>row. row[c := FLT_MAX]) (M[p := replicate 6 FLT_MAX])) = Inr res"
proof -
  from assms obtain idx where idx: "findMinIDX M = Inr idx"
    by (auto split: sum.splits)
  from assms idx have first: "0 \<le> fst idx" "nat (fst idx) < length M"
    by (auto split: sum.splits if_splits prod.splits)
  with findMinIDX_selection [OF idx] obtain p c where
    pc: "idx = (int p, int c)" "p < length M" "c < length (M ! p)" "M ! p ! c < FLT_MAX"
    by auto
  from assms idx pc obtain vec1 used1 M1 where
    s: "save_match (int p) (int c) vec used = Inr (vec1, used1)" and
    e: "erase_column (int c) (M[p := replicate 6 FLT_MAX]) = Inr M1" and
    m: "match_loop n vec1 used1 M1 = Inr res"
    by (auto split: sum.splits if_splits prod.splits)
  from s have vec1: "vec1 = vec[p := int c]"
    by (auto simp: save_match_def split: if_splits)
  from erase_column_map [OF e] have M1: "M1 = map (\<lambda>row. row[c := FLT_MAX]) (M[p := replicate 6 FLT_MAX])"
    by simp
  from pc m vec1 M1 show ?thesis by blast
qed

lemma match_inv_step:
  assumes inv: "match_inv ncols vec M"
    and p: "p < length M" and c: "c < length (M ! p)" and less: "M ! p ! c < FLT_MAX"
  shows "match_inv ncols (vec[p := int c])
           (map (\<lambda>row. row[c := FLT_MAX]) (M[p := replicate 6 FLT_MAX]))"
proof -
  let ?M' = "map (\<lambda>row. row[c := FLT_MAX]) (M[p := replicate 6 FLT_MAX])"
  let ?vec' = "vec[p := int c]"
  from inv have len: "length vec = length M"
    and rows: "\<And>i v. i < length M \<Longrightarrow> vec ! i \<noteq> - 1 \<Longrightarrow> v \<in> set (M ! i) \<Longrightarrow> \<not> v < FLT_MAX"
    and cols: "\<And>i r k. i < length M \<Longrightarrow> r < length M \<Longrightarrow> k < length (M ! r) \<Longrightarrow> vec ! i = int k
                 \<Longrightarrow> \<not> M ! r ! k < FLT_MAX"
    and inj: "\<And>i j. i < length M \<Longrightarrow> j < length M \<Longrightarrow> vec ! i \<noteq> - 1 \<Longrightarrow> vec ! i = vec ! j \<Longrightarrow> i = j"
    and shape: "\<And>r. r < length M \<Longrightarrow> length (M ! r) = ncols \<or> (\<forall>v\<in>set (M ! r). \<not> v < FLT_MAX)"
    and range: "\<And>i. i < length M \<Longrightarrow> vec ! i \<noteq> - 1 \<Longrightarrow> 0 \<le> vec ! i \<and> nat (vec ! i) < ncols"
    unfolding match_inv_def by blast+
  have free_row: "vec ! p = - 1"
    using rows [OF p _ nth_mem [OF c]] less by blast
  have free_col: "vec ! i \<noteq> int c" if "i < length M" for i
    using cols [OF that p c] less by blast
  have c_range: "c < ncols"
    using shape [OF p] c less nth_mem [OF c] by auto
  have row': "?M' ! r = (if r = p then (replicate 6 FLT_MAX)[c := FLT_MAX] else (M ! r)[c := FLT_MAX])"
    if "r < length M" for r
    using that by (simp add: nth_list_update)
  have erased: "\<not> v < FLT_MAX" if "v \<in> set ((replicate 6 FLT_MAX)[c := FLT_MAX])" for v
    using that set_update_subset_insert [of "replicate 6 FLT_MAX" c FLT_MAX] by auto
  have vec': "?vec' ! i = (if i = p then int c else vec ! i)" if "i < length M" for i
    using that len by (simp add: nth_list_update)
  have g1: "length ?vec' = length ?M'"
    using len by simp
  have g2: "\<not> v < FLT_MAX" if "i < length ?M'" "?vec' ! i \<noteq> - 1" "v \<in> set (?M' ! i)" for i v
  proof (cases "i = p")
    case True
    with that p show ?thesis using erased by (simp add: row')
  next
    case False
    with that have i: "i < length M" and a: "vec ! i \<noteq> - 1" and v: "v \<in> set ((M ! i)[c := FLT_MAX])"
      by (simp_all add: vec' row')
    from v set_update_subset_insert [of "M ! i" c FLT_MAX] have "v = FLT_MAX \<or> v \<in> set (M ! i)"
      by auto
    with rows [OF i a] show ?thesis by auto
  qed
  have g3: "\<not> ?M' ! r ! k < FLT_MAX"
    if "i < length ?M'" "r < length ?M'" "k < length (?M' ! r)" "?vec' ! i = int k" for i r k
  proof (cases "r = p")
    case True
    with that p have "?M' ! r ! k \<in> set ((replicate 6 FLT_MAX)[c := FLT_MAX])"
      by (metis length_list_update nth_mem row')
    then show ?thesis by (rule erased)
  next
    case False
    from that have i: "i < length M" and r: "r < length M" by simp_all
    from that False r have k: "k < length (M ! r)" by (simp add: row')
    show ?thesis
    proof (cases "k = c")
      case True
      with False r k show ?thesis by (simp add: row')
    next
      case kc: False
      with that(4) i have "i \<noteq> p" by (auto simp: vec')
      with that(4) i have "vec ! i = int k" by (simp add: vec')
      from cols [OF i r k this] False r kc show ?thesis by (simp add: row')
    qed
  qed
  have g4: "i = j"
    if "i < length ?M'" "j < length ?M'" "?vec' ! i \<noteq> - 1" "?vec' ! i = ?vec' ! j" for i j
  proof -
    from that have i: "i < length M" and j: "j < length M" by simp_all
    show ?thesis
    proof (cases "i = p")
      case True
      with that(4) i j free_col [OF j] show ?thesis by (auto simp: vec' split: if_splits)
    next
      case False
      with that(3,4) i j free_col [OF i] have "j \<noteq> p" "vec ! i \<noteq> - 1" "vec ! i = vec ! j"
        by (auto simp: vec' split: if_splits)
      with inj [OF i j] show ?thesis by blast
    qed
  qed
  have g5: "length (?M' ! r) = ncols \<or> (\<forall>v\<in>set (?M' ! r). \<not> v < FLT_MAX)" if "r < length ?M'" for r
  proof (cases "r = p")
    case True
    with that p erased show ?thesis by (simp add: row')
  next
    case False
    from that have r: "r < length M" by simp
    from shape [OF r] show ?thesis
    proof
      assume "length (M ! r) = ncols"
      with False r show ?thesis by (simp add: row')
    next
      assume a: "\<forall>v\<in>set (M ! r). \<not> v < FLT_MAX"
      have "\<not> v < FLT_MAX" if "v \<in> set ((M ! r)[c := FLT_MAX])" for v
        using that a set_update_subset_insert [of "M ! r" c FLT_MAX] by auto
      with False r show ?thesis by (simp add: row')
    qed
  qed
  have g6: "0 \<le> ?vec' ! i \<and> nat (?vec' ! i) < ncols" if "i < length ?M'" "?vec' ! i \<noteq> - 1" for i
  proof -
    from that have i: "i < length M" by simp
    show ?thesis
      using that(2) range [OF i] c_range i by (auto simp: vec')
  qed
  show ?thesis
    unfolding match_inv_def using g1 g2 g3 g4 g5 g6 by blast
qed


lemma match_loop_inv:
  "match_loop n vec used M = Inr (vec', used') \<Longrightarrow> match_inv ncols vec M \<Longrightarrow>
   \<exists>M'. match_inv ncols vec' M' \<and> length M' = length M"
proof (induction n arbitrary: vec used M)
  case 0
  then show ?case by auto
next
  case (Suc n)
  from match_loop_step [OF Suc.prems(1)] obtain p c used1 where
    p: "p < length M" and c: "c < length (M ! p)" and less: "M ! p ! c < FLT_MAX" and
    run: "match_loop n (vec[p := int c]) used1
            (map (\<lambda>row. row[c := FLT_MAX]) (M[p := replicate 6 FLT_MAX])) = Inr (vec', used')"
    by blast
  from Suc.IH [OF run match_inv_step [OF Suc.prems(2) p c less]]
  show ?case by simp
qed

lemma match_inv_initial:
  "match_inv (length cCentres) (replicate (length pred) (- 1)) (build_distMatrix pred cCentres)"
  by (simp add: match_inv_def build_distMatrix_def)

lemma distinct_filter_nth:
  "(\<And>i j. i < length xs \<Longrightarrow> j < length xs \<Longrightarrow> P (xs ! i) \<Longrightarrow> xs ! i = xs ! j \<Longrightarrow> i = j) \<Longrightarrow>
   distinct (filter P xs)"
proof (induction xs)
  case Nil
  then show ?case by simp
next
  case (Cons x xs)
  have tail: "distinct (filter P xs)"
  proof (rule Cons.IH)
    fix i j
    assume "i < length xs" "j < length xs" "P (xs ! i)" "xs ! i = xs ! j"
    with Cons.prems [of "Suc i" "Suc j"] show "i = j" by simp
  qed
  have "x \<notin> set xs" if "P x"
  proof
    assume "x \<in> set xs"
    then obtain j where "j < length xs" "xs ! j = x"
      by (auto simp: in_set_conv_nth)
    with Cons.prems [of 0 "Suc j"] that show False by simp
  qed
  with tail show ?case by simp
qed

text \<open>
  Whenever \<^verbatim>\<open>match_objID\<close> does return an assignment, it has one entry per track, no
  observation index occurs in it twice, and every entry other than \<open>-1\<close> is the index of an
  observation.
\<close>

lemma match_objID_assignment:
  assumes "match_objID nfilters pred cCentres used = Inr (vec, used')"
  shows "length vec = length pred
       \<and> distinct (filter (\<lambda>j. j \<noteq> - 1) vec)
       \<and> (\<forall>j\<in>set vec. j = - 1 \<or> (0 \<le> j \<and> nat j < length cCentres))"
proof -
  from assms have "match_loop nfilters (replicate (length pred) (- 1)) used
                     (build_distMatrix pred cCentres) = Inr (vec, used')"
    by (simp add: match_objID_def)
  from match_loop_inv [OF this match_inv_initial] obtain M' where
    inv: "match_inv (length cCentres) vec M'" and len: "length M' = length pred"
    by (auto simp: build_distMatrix_def)
  from inv len have l: "length vec = length pred"
    and inj: "\<And>i j. i < length vec \<Longrightarrow> j < length vec \<Longrightarrow> vec ! i \<noteq> - 1 \<Longrightarrow> vec ! i = vec ! j \<Longrightarrow> i = j"
    and range: "\<And>i. i < length vec \<Longrightarrow> vec ! i \<noteq> - 1 \<Longrightarrow> 0 \<le> vec ! i \<and> nat (vec ! i) < length cCentres"
    unfolding match_inv_def by auto
  have d: "distinct (filter (\<lambda>j. j \<noteq> - 1) vec)"
    by (rule distinct_filter_nth) (rule inj)
  have r: "\<forall>j\<in>set vec. j = - 1 \<or> (0 \<le> j \<and> nat j < length cCentres)"
    using range by (auto simp: in_set_conv_nth)
  from l d r show ?thesis by blast
qed

text \<open>A frame on which it does return: two tracks and three observations, track 1 nearest.\<close>

lemma match_objID_returns:
  "match_objID 2 [Point 0 1 0, Point 10 1 0] [Point 1 1 0, Point 10 1 0, Point 20 1 0]
      [False, False, False] = Inr ([0, 1], [True, True, False])"
  by (simp add: match_eval numeral_2_eq_2)

text \<open>
  C4 fails on the code. Two tracks and two observations, with track 0 nearest to
  observation 0: the first round assigns it and replaces row 0 by a row of six entries, so
  the second round scans six columns of the two-column row 1 and leaves its bounds; no
  one-to-one assignment is returned. The same happens on the frame that follows a first frame
  with two clusters, where both tracks are predicted at the origin and row 0 is taken first.
\<close>

theorem square_frame_leaves_bounds:
  "match_objID 2 [Point 0 0 0, Point 5 0 0] [Point 1 0 0, Point 7 0 0] [False, False]
     = Inl OutOfBounds
   \<and> cloudCallback (\<lambda>i. False) [[Point 1 0 0], [Point 3 4 0]]
        \<lparr>k_filters = [init_filter\<lparr>statePre := [1, 0, 0, 0]\<rparr>,
                      init_filter\<lparr>statePre := [3, 4, 0, 0]\<rparr>],
         objID = [], kf_prune_ctr = 0, first_frame = False\<rparr>
     = Inl OutOfBounds"
proof -
  have a: "match_objID 2 [Point 0 0 0, Point 5 0 0] [Point 1 0 0, Point 7 0 0] [False, False]
             = Inl OutOfBounds"
    by (simp add: match_eval numeral_2_eq_2)
  have pred: "predicted_point (predict (init_filter\<lparr>statePre := v\<rparr>)) = Point 0 0 0" for v
    by (simp add: predicted_point_def predict_def init_filter_def new_KalmanFilter_def
          mat_vec_def Let_def numeral_eq_Suc)
  have m: "match_objID 2 [Point 0 0 0, Point 0 0 0] [Point 1 0 0, Point 3 4 0] [False, False]
             = Inl OutOfBounds"
    by (simp add: match_eval numeral_2_eq_2 sqrt_25)
  have u: "map (\<lambda>i. False) [0..<2] = [False, False]"
    by (simp add: upt_conv_Cons)
  have b: "cloudCallback (\<lambda>i. False) [[Point 1 0 0], [Point 3 4 0]]
        \<lparr>k_filters = [init_filter\<lparr>statePre := [1, 0, 0, 0]\<rparr>,
                      init_filter\<lparr>statePre := [3, 4, 0, 0]\<rparr>],
         objID = [], kf_prune_ctr = 0, first_frame = False\<rparr>
     = Inl OutOfBounds"
    using pred m [unfolded numeral_2_eq_2] u
    by (simp add: cloudCallback_def KFTrack_def multiarray_of_def centre_of_def)
  from a b show ?thesis by simp
qed

text \<open>
  Every round that does not leave the bounds assigns an observation to a track that had none.
\<close>

lemma match_inv_free_row:
  assumes "match_inv ncols vec M" "p < length M" "c < length (M ! p)" "M ! p ! c < FLT_MAX"
  shows "vec ! p = - 1"
proof (rule ccontr)
  assume "vec ! p \<noteq> - 1"
  with assms(1,2) have "\<forall>v\<in>set (M ! p). \<not> v < FLT_MAX"
    unfolding match_inv_def by blast
  with nth_mem [OF assms(3)] assms(4) show False by blast
qed

lemma count_matched_update:
  assumes "p < length vec" "vec ! p = - 1" "v \<noteq> - 1"
  shows "length (filter (\<lambda>j. j \<noteq> - 1) (vec[p := v])) = Suc (length (filter (\<lambda>j. j \<noteq> - 1) vec))"
proof -
  have "vec = take p vec @ vec ! p # drop (Suc p) vec"
    using assms(1) by (rule id_take_nth_drop)
  then have a: "filter (\<lambda>j. j \<noteq> - 1) vec =
      filter (\<lambda>j. j \<noteq> - 1) (take p vec) @ filter (\<lambda>j. j \<noteq> - 1) (drop (Suc p) vec)"
    using assms(2) by (metis (mono_tags, lifting) filter.simps(2) filter_append)
  have "vec[p := v] = take p vec @ v # drop (Suc p) vec"
    using assms(1) by (rule upd_conv_take_nth_drop)
  then have b: "filter (\<lambda>j. j \<noteq> - 1) (vec[p := v]) =
      filter (\<lambda>j. j \<noteq> - 1) (take p vec) @ v # filter (\<lambda>j. j \<noteq> - 1) (drop (Suc p) vec)"
    using assms(3) by simp
  from a b show ?thesis by simp
qed

lemma match_loop_count:
  "match_loop n vec used M = Inr (vec', used') \<Longrightarrow> match_inv ncols vec M \<Longrightarrow>
   length (filter (\<lambda>j. j \<noteq> - 1) vec') = length (filter (\<lambda>j. j \<noteq> - 1) vec) + n"
proof (induction n arbitrary: vec used M)
  case 0
  then show ?case by simp
next
  case (Suc n)
  from match_loop_step [OF Suc.prems(1)] obtain p c used1 where
    p: "p < length M" and c: "c < length (M ! p)" and less: "M ! p ! c < FLT_MAX" and
    run: "match_loop n (vec[p := int c]) used1
            (map (\<lambda>row. row[c := FLT_MAX]) (M[p := replicate 6 FLT_MAX])) = Inr (vec', used')"
    by blast
  from Suc.prems(2) p have pv: "p < length vec"
    by (simp add: match_inv_def)
  have "length (filter (\<lambda>j. j \<noteq> - 1) (vec[p := int c])) = Suc (length (filter (\<lambda>j. j \<noteq> - 1) vec))"
    using pv match_inv_free_row [OF Suc.prems(2) p c less] by (intro count_matched_update) simp_all
  with Suc.IH [OF run match_inv_step [OF Suc.prems(2) p c less]]
  show ?case by simp
qed

text \<open>
  So when \<^verbatim>\<open>match_objID\<close> returns, after one round per track, every track has an
  observation: the returned assignment holds no \<open>-1\<close>, and there are at least as many
  observations as tracks.
\<close>

lemma match_objID_no_sentinel:
  assumes "match_objID (length pred) pred cCentres used = Inr (vec, used')"
  shows "- 1 \<notin> set vec \<and> length pred \<le> length cCentres"
proof -
  from assms have run: "match_loop (length pred) (replicate (length pred) (- 1)) used
                     (build_distMatrix pred cCentres) = Inr (vec, used')"
    by (simp add: match_objID_def)
  from match_loop_count [OF run match_inv_initial]
  have cnt: "length (filter (\<lambda>j. j \<noteq> - 1) vec) = length pred"
    by simp
  from match_objID_assignment [OF assms]
  have len: "length vec = length pred"
    and d: "distinct (filter (\<lambda>j. j \<noteq> - 1) vec)"
    and range: "\<forall>j\<in>set vec. j = - 1 \<or> (0 \<le> j \<and> nat j < length cCentres)"
    by blast+
  from cnt len have all: "filter (\<lambda>j. j \<noteq> - 1) vec = vec"
    by (metis length_filter_less less_irrefl filter_True)
  have "set (filter (\<lambda>j. j \<noteq> - 1) vec) = {j \<in> set vec. j \<noteq> - 1}"
    by (rule set_filter)
  with all have ns: "- 1 \<notin> set vec"
    by auto
  from all d have dist: "distinct vec" by simp
  from range ns have "set vec \<subseteq> int ` {..<length cCentres}"
  proof (intro subsetI)
    fix j assume "j \<in> set vec"
    with range ns have "0 \<le> j" "nat j < length cCentres" by auto
    then have "j = int (nat j)" "nat j \<in> {..<length cCentres}" by simp_all
    then show "j \<in> int ` {..<length cCentres}" by (rule image_eqI)
  qed
  then have "card (set vec) \<le> card (int ` {..<length cCentres})"
    by (intro card_mono) simp_all
  also have "\<dots> \<le> length cCentres"
    using card_image_le [of "{..<length cCentres}" int] by simp
  finally have "length pred \<le> length cCentres"
    using distinct_card [OF dist] len by simp
  with ns show ?thesis by blast
qed

text \<open>
  With more tracks than observations some round finds the matrix exhausted, or scans a
  replaced row, and the loop leaves the bounds of the matrix.
\<close>

lemma match_objID_overprovisioned:
  assumes "length cCentres < length pred"
  shows "match_objID (length pred) pred cCentres used = Inl OutOfBounds"
proof (cases "match_objID (length pred) pred cCentres used")
  case (Inl e)
  then show ?thesis by (cases e) simp
next
  case (Inr res)
  then have "match_objID (length pred) pred cCentres used = Inr (fst res, snd res)" by simp
  from match_objID_no_sentinel [OF this] assms show ?thesis by simp
qed

section \<open>The correction phase\<close>

lemma statePre_init: "statePre init_filter = [0, 0, 0, 0]"
  by (simp add: init_filter_def new_KalmanFilter_def numeral_eq_Suc)

lemma statePre_correct: "statePre (correct m f) = statePre f"
  by (simp add: correct_def Let_def)

lemma statePre_predict_init: "statePre (predict (init_filter\<lparr>statePost := [a, b, c, d]\<rparr>)) = [a + c, b + d, c / 100, d / 100]"
  by (simp add: predict_def init_filter_def mat_vec_def dx_def dy_def dvx_def dvy_def Let_def)

lemmas mat_eval =
  mat_mul_def mat_vec_def mat_add_def mat_sub_def inv2_def setIdentity_def upt_conv_Cons

lemma predict_init: "predict init_filter = init_filter\<lparr>errorCovPre := setIdentity 4 4 (1/100), errorCovPost := setIdentity 4 4 (1/100)\<rparr>"
  by (simp add: predict_def init_filter_def new_KalmanFilter_def mat_eval Let_def dx_def dy_def dvx_def dvy_def numeral_eq_Suc)

lemma correct_loop_closed:
  "\<forall>a\<in>set ids. 0 \<le> a \<and> nat a < length cCentres \<Longrightarrow> i + length ids \<le> length fs \<Longrightarrow>
   correct_loop cCentres ids i fs =
     Inr (take i fs
          @ map2 (\<lambda>a f. if pt_x (cCentres ! nat a) = 0 \<or> pt_y (cCentres ! nat a) = 0 then f
                         else correct [pt_x (cCentres ! nat a), pt_y (cCentres ! nat a)] f)
                 ids (drop i fs)
          @ drop (i + length ids) fs)"
proof (induction ids arbitrary: i fs)
  case Nil
  then show ?case by simp
next
  case (Cons a rest)
  from Cons.prems have i: "i < length fs" and a: "0 \<le> a" "nat a < length cCentres"
    and rest: "\<forall>a\<in>set rest. 0 \<le> a \<and> nat a < length cCentres"
    and len: "Suc i + length rest \<le> length fs"
    by auto
  have d: "drop i fs = fs ! i # drop (Suc i) fs"
    using i by (simp add: Cons_nth_drop_Suc)
  show ?case
  proof (cases "pt_x (cCentres ! nat a) = 0 \<or> pt_y (cCentres ! nat a) = 0")
    case True
    have "correct_loop cCentres (a # rest) i fs = correct_loop cCentres rest (Suc i) fs"
      using a True by (auto simp: Let_def)
    also note Cons.IH [OF rest len]
    finally show ?thesis
      using True i by (simp add: d take_Suc_conv_app_nth)
  next
    case False
    let ?v = "correct [pt_x (cCentres ! nat a), pt_y (cCentres ! nat a)] (fs ! i)"
    have len': "Suc i + length rest \<le> length (fs[i := ?v])" using len by simp
    have "correct_loop cCentres (a # rest) i fs = correct_loop cCentres rest (Suc i) (fs[i := ?v])"
      using a False i by (simp add: Let_def)
    also note Cons.IH [OF rest len']
    finally show ?thesis
      using False i by (simp add: d take_Suc_conv_app_nth)
  qed
qed

text \<open>
  C5 (as amended). When every entry of the assignment is the index of an observation and
  there is a filter for every entry, the correction loop ends normally; slot \<open>i\<close> is
  corrected with the \<open>(x, y)\<close> of its observation exactly when both \<open>x\<close> and \<open>y\<close> are
  non-zero, and is left as it was (at its predicted state) when \<open>x = 0\<close> or \<open>y = 0\<close>;
  filters beyond the assignment are left as they were.
\<close>

theorem correct_phase:
  "\<forall>a\<in>set ids. 0 \<le> a \<and> nat a < length cCentres \<Longrightarrow> length ids \<le> length fs \<Longrightarrow>
   correct_loop cCentres ids 0 fs =
     Inr (map2 (\<lambda>a f. if pt_x (cCentres ! nat a) = 0 \<or> pt_y (cCentres ! nat a) = 0 then f
                        else correct [pt_x (cCentres ! nat a), pt_y (cCentres ! nat a)] f)
                ids fs
          @ drop (length ids) fs)"
  using correct_loop_closed [of ids cCentres 0 fs] by simp

text \<open>
  Two observations and three filters: slot 0 is matched to \<open>(0, 5)\<close> and skipped, slot 1
  is matched to \<open>(1, 2)\<close> and corrected, slot 2 has no entry.
\<close>

theorem correct_phase_witness:
  "correct_loop [Point 1 2 0, Point 0 5 0] [1, 0] 0 [init_filter, init_filter, init_filter]
     = Inr [init_filter, correct [1, 2] init_filter, init_filter]"
  using correct_phase [of "[1, 0]" "[Point 1 2 0, Point 0 5 0]" "[init_filter, init_filter, init_filter]"]
  by simp

text \<open>
  C5 fails as stated: the measurement \<open>(0, 5)\<close> is not \<open>(0, 0)\<close> and the slot has a
  real assignment, yet the filter is not corrected; a correction would have moved its
  a-posteriori \<open>y\<close> from \<open>0\<close> to \<open>5/11\<close>.
\<close>

theorem correct_skip_counterexample:
  "correct_loop [Point 0 5 0] [0] 0 [predict init_filter] = Inr [predict init_filter]
   \<and> statePost (predict init_filter) = [0, 0, 0, 0]
   \<and> statePost (correct [0, 5] (predict init_filter)) = [0, 5 / 11, 0, 0]"
  by (simp add: predict_init) (simp add: correct_def init_filter_def new_KalmanFilter_def mat_eval Let_def numeral_eq_Suc)

text \<open>
  The measurement is read before any test, so an entry \<open>-1\<close> makes the loop read
  \<^verbatim>\<open>cCentres[-1]\<close>.
\<close>

lemma correct_loop_sentinel: "correct_loop cCentres (- 1 # rest) i fs = Inl OutOfBounds"
  by simp

section \<open>Pruning and the prune counter\<close>

text \<open>
  The pruning loop on its own: unless the first entry of \<^verbatim>\<open>objID\<close> is \<open>-1\<close>, it
  removes exactly the entries \<open>-1\<close> and the filters at their positions.
\<close>

lemma prune_loop_closed:
  "length kept = i - deleted \<Longrightarrow> deleted \<le> i \<Longrightarrow> length rest_fs = length ids \<Longrightarrow>
   kept \<noteq> [] \<or> ids = [] \<or> hd ids \<noteq> - 1 \<Longrightarrow>
   prune_loop ids i deleted (kept @ rest_fs) =
     Inr (filter (\<lambda>a. a \<noteq> - 1) ids,
          kept @ map snd (filter (\<lambda>(a, f). a \<noteq> - 1) (zip ids rest_fs)))"
proof (induction ids arbitrary: i deleted kept rest_fs)
  case Nil
  then show ?case by simp
next
  case (Cons a rest)
  then obtain f fs' where r: "rest_fs = f # fs'" and l: "length fs' = length rest"
    by (cases rest_fs) auto
  show ?case
  proof (cases "a = - 1")
    case True
    with Cons.prems(4) have k: "kept \<noteq> []" by simp
    with Cons.prems(1) have pos: "i - deleted \<noteq> 0" by auto
    have e: "erase_at (i - deleted) (kept @ f # fs') = kept @ fs'"
      using Cons.prems(1) by (simp add: erase_at_def)
    have "prune_loop rest (i + 1) (deleted + 1) (kept @ fs') =
          Inr (filter (\<lambda>a. a \<noteq> - 1) rest,
               kept @ map snd (filter (\<lambda>(a, f). a \<noteq> - 1) (zip rest fs')))"
      using Cons.prems(1,2) l k by (intro Cons.IH) auto
    then show ?thesis using True e pos Cons.prems(1) by (simp add: r)
  next
    case False
    have "prune_loop rest (i + 1) deleted ((kept @ [f]) @ fs') =
          Inr (filter (\<lambda>a. a \<noteq> - 1) rest,
               (kept @ [f]) @ map snd (filter (\<lambda>(a, f). a \<noteq> - 1) (zip rest fs')))"
      using Cons.prems(1,2) l by (intro Cons.IH) auto
    then show ?thesis using False by (simp add: r)
  qed
qed

lemma prune_loop_begin: "prune_loop (- 1 # rest) 0 0 fs = Inl OutOfBounds"
  by simp

text \<open>
  The branch that counts and prunes needs more tracks than observations. On every such frame
  the matching leaves the bounds of the distance matrix first, so the cycle ends there.
\<close>

lemma KFTrack_overprovisioned:
  assumes "points_of_data ccs = Inr cCentres" and "length cCentres < length (k_filters s)"
  shows "KFTrack stack ccs s = Inl OutOfBounds"
proof -
  have "match_objID (length (map predicted_point (map predict (k_filters s))))
          (map predicted_point (map predict (k_filters s))) cCentres
          (map stack [0..<length cCentres]) = Inl OutOfBounds"
    using assms(2) by (intro match_objID_overprovisioned) simp
  with assms(1) show ?thesis
    by (simp add: KFTrack_def Let_def)
qed

text \<open>
  A cycle that ends normally therefore leaves the prune counter as it was, and its assignment
  holds no \<open>-1\<close>.
\<close>

lemma KFTrack_counter_unchanged:
  assumes run: "KFTrack stack ccs s = Inr s'"
  shows "kf_prune_ctr s' = kf_prune_ctr s \<and> - 1 \<notin> set (objID s')"
proof -
  let ?fs = "map predict (k_filters s)"
  from run obtain cCentres ids used s1 fs' where
    m: "match_objID (length ?fs) (map predicted_point ?fs) cCentres
          (map stack [0..<length cCentres]) = Inr (ids, used)" and
    r: "reconcile cCentres used (s\<lparr>k_filters := ?fs, objID := ids\<rparr>) = Inr s1" and
    s': "s' = s1\<lparr>k_filters := fs'\<rparr>"
    by (auto simp: KFTrack_def Let_def split: sum.splits prod.splits)
  from m have m': "match_objID (length (map predicted_point ?fs)) (map predicted_point ?fs)
          cCentres (map stack [0..<length cCentres]) = Inr (ids, used)"
    by simp
  from match_objID_no_sentinel [OF m'] have ns: "- 1 \<notin> set ids"
    and le: "length (k_filters s) \<le> length cCentres"
    by simp_all
  from match_objID_assignment [OF m] have ids: "length ids = length (k_filters s)"
    by simp
  from r le ids have "kf_prune_ctr s1 = kf_prune_ctr s \<and> objID s1 = ids"
    by (auto simp: reconcile_def Let_def split: sum.splits if_splits)
  with ns s' show ?thesis by simp
qed

text \<open>
  C6 fails on the code. Two tracks at \<open>(1, 1)\<close> and \<open>(5, 5)\<close> and a frame with the one
  centre \<open>(1, 1, 0)\<close>, the first of the over-provisioned frames that C6 counts: the cycle
  leaves the bounds of the distance matrix in \<^verbatim>\<open>match_objID\<close> (the defect of C3) before
  it reaches the test of the counter, so the counter is not incremented and no track is ever
  pruned.
\<close>

theorem overprovisioned_cycle_fails:
  "KFTrack (\<lambda>i. False) [1, 1, 0]
      \<lparr>k_filters = [init_filter\<lparr>statePost := [1, 1, 0, 0]\<rparr>,
                    init_filter\<lparr>statePost := [5, 5, 0, 0]\<rparr>],
       objID = [0, 1], kf_prune_ctr = 0, first_frame = False\<rparr>
     = Inl OutOfBounds"
proof -
  have p0: "predicted_point (predict (init_filter\<lparr>statePost := [1, 1, 0, 0]\<rparr>)) = Point 1 1 0"
    by (simp add: predicted_point_def statePre_predict_init)
  have p1: "predicted_point (predict (init_filter\<lparr>statePost := [5, 5, 0, 0]\<rparr>)) = Point 5 5 0"
    by (simp add: predicted_point_def statePre_predict_init)
  have m: "match_objID 2 [Point 1 1 0, Point 5 5 0] [Point 1 1 0] [False] = Inl OutOfBounds"
    by (simp add: match_eval numeral_2_eq_2)
  show ?thesis
    using p0 p1 m [unfolded numeral_2_eq_2] by (simp add: KFTrack_def upt_conv_Cons)
qed

section \<open>Creating tracks for surplus observations\<close>

lemma seed_loop_length:
  "seed_loop cus diff i skipped fs = Inr fs' \<Longrightarrow> length fs' = length fs"
  by (induction cus diff i skipped fs rule: seed_loop.induct) (auto split: if_splits)

lemma correct_loop_length:
  "correct_loop cCentres ids i fs = Inr fs' \<Longrightarrow> length fs' = length fs"
  by (induction cCentres ids i fs rule: correct_loop.induct) (auto simp: Let_def split: if_splits)

text \<open>
  Every cycle that has more observations than tracks and ends normally leaves one filter per
  observation, and an assignment with one entry per old track.
\<close>

lemma KFTrack_growth_lengths:
  assumes run: "KFTrack stack ccs s = Inr s'"
    and data: "points_of_data ccs = Inr cCentres"
    and more: "length (k_filters s) < length cCentres"
  shows "length (k_filters s') = length cCentres \<and> length (objID s') = length (k_filters s)"
proof -
  let ?fs = "map predict (k_filters s)"
  from run data obtain ids used s1 fs' where
    m: "match_objID (length ?fs) (map predicted_point ?fs) cCentres
          (map stack [0..<length cCentres]) = Inr (ids, used)" and
    r: "reconcile cCentres used (s\<lparr>k_filters := ?fs, objID := ids\<rparr>) = Inr s1" and
    c: "correct_loop cCentres (objID s1) 0 (k_filters s1) = Inr fs'" and
    s': "s' = s1\<lparr>k_filters := fs'\<rparr>"
    by (auto simp: KFTrack_def Let_def split: sum.splits prod.splits)
  from match_objID_assignment [OF m] have ids: "length ids = length (k_filters s)"
    by simp
  with more r obtain fs1 where
    seed: "seed_loop (zip cCentres used) (length cCentres - length ids) 0 0
             (init_KFilters (length cCentres - length ids) ?fs) = Inr fs1" and
    s1: "s1 = s\<lparr>k_filters := fs1, objID := ids\<rparr>"
    by (auto simp: reconcile_def Let_def split: sum.splits)
  from seed_loop_length [OF seed] ids more have "length fs1 = length cCentres"
    by (simp add: init_KFilters_def)
  with correct_loop_length [OF c] s1 s' ids show ?thesis
    by simp
qed

text \<open>The first frame with one cluster at the origin leaves one fresh filter.\<close>

lemma first_frame_single:
  "cloudCallback (\<lambda>i. False) [[Point 0 0 0]] initial_tracker
     = Inr \<lparr>k_filters = [init_filter], objID = [], kf_prune_ctr = 0, first_frame = False\<rparr>"
  by (simp add: cloudCallback_def initial_tracker_def init_KFilters_def centre_of_def seed_statePre_def
       init_filter_def new_KalmanFilter_def numeral_eq_Suc)

text \<open>
  C1 fails on the code. One track at the origin and a frame with the centres \<open>(0, 0, 0)\<close>
  and \<open>(10, 10, 0)\<close>: the cycle ends with two filters and the one-entry assignment
  \<open>[0]\<close>, which is not extended for the new slot.
\<close>

theorem growth_assignment_not_extended:
  "cloudCallback (\<lambda>i. False) [[Point 0 0 0], [Point 10 10 0]]
      \<lparr>k_filters = [init_filter], objID = [], kf_prune_ctr = 0, first_frame = False\<rparr>
     = Inr \<lparr>k_filters = [predict init_filter, seed_statePre (Point 10 10 0) init_filter],
            objID = [0], kf_prune_ctr = 0, first_frame = False\<rparr>
   \<and> length (k_filters
         \<lparr>k_filters = [predict init_filter, seed_statePre (Point 10 10 0) init_filter],
          objID = [0], kf_prune_ctr = 0, first_frame = False\<rparr>) = 2
   \<and> length (objID
         \<lparr>k_filters = [predict init_filter, seed_statePre (Point 10 10 0) init_filter],
          objID = [0], kf_prune_ctr = 0, first_frame = False\<rparr>) = 1"
proof -
  have p: "map predicted_point (map predict [init_filter]) = [Point 0 0 0]"
    by (simp add: predicted_point_def predict_init statePre_init)
  have m: "match_objID 1 [Point 0 0 0] [Point 0 0 0, Point 10 10 0] [False, False]
             = Inr ([0], [True, False])"
    by (simp add: match_eval)
  have r: "reconcile [Point 0 0 0, Point 10 10 0] [True, False]
             \<lparr>k_filters = [predict init_filter], objID = [0], kf_prune_ctr = 0, first_frame = False\<rparr>
           = Inr \<lparr>k_filters = [predict init_filter, seed_statePre (Point 10 10 0) init_filter],
                  objID = [0], kf_prune_ctr = 0, first_frame = False\<rparr>"
    by (simp add: reconcile_def init_KFilters_def)
  have c: "correct_loop [Point 0 0 0, Point 10 10 0] [0] 0
             [predict init_filter, seed_statePre (Point 10 10 0) init_filter]
           = Inr [predict init_filter, seed_statePre (Point 10 10 0) init_filter]"
    by simp
  have u: "map (\<lambda>i. False) [0..<2] = [False, False]"
    by (simp add: upt_conv_Cons)
  have "KFTrack (\<lambda>i. False) [0, 0, 0, 10, 10, 0]
          \<lparr>k_filters = [init_filter], objID = [], kf_prune_ctr = 0, first_frame = False\<rparr>
        = Inr \<lparr>k_filters = [predict init_filter, seed_statePre (Point 10 10 0) init_filter],
            objID = [0], kf_prune_ctr = 0, first_frame = False\<rparr>"
    using p m r c u by (simp add: KFTrack_def)
  then show ?thesis
    by (simp add: cloudCallback_def multiarray_of_def centre_of_def)
qed

text \<open>
  C2 fails on the code. Two tracks predicted at \<open>(0, 1)\<close> and \<open>(10, 1)\<close>, matched to
  observations 0 and 1 of three: the seeding loop writes the unmatched observation
  \<open>(20, 1)\<close> to \<^verbatim>\<open>k_filters_[2 + 1 - 2]\<close>, the existing slot 1, and the new slot 2 keeps
  the zero state. With one track and three observations the loop writes
  \<^verbatim>\<open>k_filters_[2 + 2 - 1]\<close>, past the end of the three filters.
\<close>

theorem seed_overwrites_slot:
  "KFTrack (\<lambda>i. False) [1, 1, 0, 10, 1, 0, 20, 1, 0]
      \<lparr>k_filters = [init_filter\<lparr>statePost := [0, 1, 0, 0]\<rparr>, init_filter\<lparr>statePost := [10, 1, 0, 0]\<rparr>],
       objID = [], kf_prune_ctr = 0, first_frame = False\<rparr>
     = Inr \<lparr>k_filters =
              [correct [1, 1] (predict (init_filter\<lparr>statePost := [0, 1, 0, 0]\<rparr>)),
               correct [10, 1]
                 (seed_statePre (Point 20 1 0) (predict (init_filter\<lparr>statePost := [10, 1, 0, 0]\<rparr>))),
               init_filter],
            objID = [0, 1], kf_prune_ctr = 0, first_frame = False\<rparr>
   \<and> statePre (predict (init_filter\<lparr>statePost := [10, 1, 0, 0]\<rparr>)) = [10, 1, 0, 0]
   \<and> statePre (correct [10, 1]
                 (seed_statePre (Point 20 1 0) (predict (init_filter\<lparr>statePost := [10, 1, 0, 0]\<rparr>))))
       = [20, 1, 0, 0]
   \<and> statePre init_filter = [0, 0, 0, 0]
   \<and> KFTrack (\<lambda>i. False) [0, 1, 0, 10, 1, 0, 20, 1, 0]
      \<lparr>k_filters = [init_filter\<lparr>statePost := [0, 1, 0, 0]\<rparr>],
       objID = [], kf_prune_ctr = 0, first_frame = False\<rparr>
     = Inl OutOfBounds"
proof -
  let ?F0 = "init_filter\<lparr>statePost := [0, 1, 0, 0]\<rparr>"
  let ?F1 = "init_filter\<lparr>statePost := [10, 1, 0, 0]\<rparr>"
  have p0: "predicted_point (predict ?F0) = Point 0 1 0"
    by (simp add: predicted_point_def statePre_predict_init)
  have p1: "predicted_point (predict ?F1) = Point 10 1 0"
    by (simp add: predicted_point_def statePre_predict_init)
  have u: "map (\<lambda>i. False) [0..<3] = [False, False, False]"
    by (simp add: upt_conv_Cons)
  have m: "match_objID 2 [Point 0 1 0, Point 10 1 0] [Point 1 1 0, Point 10 1 0, Point 20 1 0]
             [False, False, False] = Inr ([0, 1], [True, True, False])"
    by (simp add: match_eval numeral_2_eq_2)
  have r: "reconcile [Point 1 1 0, Point 10 1 0, Point 20 1 0] [True, True, False]
             \<lparr>k_filters = [predict ?F0, predict ?F1], objID = [0, 1], kf_prune_ctr = 0,
              first_frame = False\<rparr>
           = Inr \<lparr>k_filters = [predict ?F0, seed_statePre (Point 20 1 0) (predict ?F1), init_filter],
                  objID = [0, 1], kf_prune_ctr = 0, first_frame = False\<rparr>"
    by (simp add: reconcile_def init_KFilters_def)
  have c: "correct_loop [Point 1 1 0, Point 10 1 0, Point 20 1 0] [0, 1] 0
             [predict ?F0, seed_statePre (Point 20 1 0) (predict ?F1), init_filter]
           = Inr [correct [1, 1] (predict ?F0),
                  correct [10, 1] (seed_statePre (Point 20 1 0) (predict ?F1)), init_filter]"
    by simp
  have k: "KFTrack (\<lambda>i. False) [1, 1, 0, 10, 1, 0, 20, 1, 0]
      \<lparr>k_filters = [?F0, ?F1], objID = [], kf_prune_ctr = 0, first_frame = False\<rparr>
     = Inr \<lparr>k_filters =
              [correct [1, 1] (predict ?F0),
               correct [10, 1] (seed_statePre (Point 20 1 0) (predict ?F1)), init_filter],
            objID = [0, 1], kf_prune_ctr = 0, first_frame = False\<rparr>"
    using p0 p1 u m [unfolded numeral_2_eq_2] r c by (simp add: KFTrack_def)
  have m': "match_objID 1 [Point 0 1 0] [Point 0 1 0, Point 10 1 0, Point 20 1 0]
             [False, False, False] = Inr ([0], [True, False, False])"
    by (simp add: match_eval)
  have r': "reconcile [Point 0 1 0, Point 10 1 0, Point 20 1 0] [True, False, False]
             \<lparr>k_filters = [predict ?F0], objID = [0], kf_prune_ctr = 0, first_frame = False\<rparr>
           = Inl OutOfBounds"
    by (simp add: reconcile_def init_KFilters_def numeral_2_eq_2)
  have k': "KFTrack (\<lambda>i. False) [0, 1, 0, 10, 1, 0, 20, 1, 0]
      \<lparr>k_filters = [?F0], objID = [], kf_prune_ctr = 0, first_frame = False\<rparr> = Inl OutOfBounds"
    using p0 u m' r' by (simp add: KFTrack_def)
  show ?thesis
    using k k' by (simp add: statePre_correct statePre_predict_init statePre_init seed_statePre_def)
qed

end
